theory Spec2Isabelle
  imports Main
begin

section \<open>Values, records and datasets\<close>

text \<open>
  The script \<^verbatim>\<open>download_datasets.py\<close> is dynamically typed: the configuration entry, the
  dataset identifiers and the field values of a record are arbitrary Python objects.
  They are modelled by one datatype of values. A Python \<^verbatim>\<open>str\<close> is a \<^typ>\<open>string\<close>
  whose characters are the code points 0 to 255; floats and other objects play no part
  in the script and are left out. A dictionary is an association list in insertion
  order (the order \<^verbatim>\<open>items()\<close> and \<^verbatim>\<open>values()\<close> iterate in); \<^verbatim>\<open>k in d\<close>
  and \<^verbatim>\<open>d[k]\<close> are \<^const>\<open>map_of\<close>.
\<close>

datatype pyval =
    Str string
  | Num int
  | Bool bool
  | NoneV
  | Lst "pyval list"
  | Dct "(string \<times> pyval) list"

text \<open>One record of a split, and a dataset: its splits by name, in the provider's order.\<close>

type_synonym item = "(string \<times> pyval) list"

type_synonym dataset = "(string \<times> item list) list"

text \<open>The exceptions the script can meet. \<open>ConfigError\<close> and \<open>FetchError\<close> stand for
  whatever \<^verbatim>\<open>open\<close>/\<^verbatim>\<open>yaml.safe_load\<close> and \<^verbatim>\<open>load_dataset\<close> raise.\<close>

datatype exn =
    KeyError
  | TypeError
  | IndexError
  | AttributeError
  | OSError
  | ConfigError
  | FetchError

text \<open>The lines the script prints.\<close>

datatype event =
    Loading pyval
  | Saved nat string
  | ErrorLoading pyval exn

text \<open>
  The world outside the script: what \<^verbatim>\<open>load_config()\<close> returns or raises, what
  \<^verbatim>\<open>load_dataset(name)\<close> returns or raises, and which files \<^verbatim>\<open>open(_, 'w')\<close> can open.
\<close>

record world =
  load_config :: "exn + pyval"
  load_dataset :: "pyval \<Rightarrow> exn + dataset"
  can_open :: "string \<Rightarrow> bool"

text \<open>The state the script changes: the files of the working directory, as text, and
  the console.\<close>

record state =
  files :: "string \<rightharpoonup> string"
  console :: "event list"

section \<open>String operations\<close>

text \<open>\<^verbatim>\<open>str.isspace\<close> on a single character, for the code points below 256.\<close>

definition py_isspace :: "char \<Rightarrow> bool" where
  "py_isspace c =
     (let n = (of_char c :: nat)
      in (9 \<le> n \<and> n \<le> 13) \<or> (28 \<le> n \<and> n \<le> 32) \<or> n = 133 \<or> n = 160)"

text \<open>\<^verbatim>\<open>s.strip()\<close>: drop the whitespace at both ends.\<close>

definition strip :: "string \<Rightarrow> string" where
  "strip s = rev (dropWhile py_isspace (rev (dropWhile py_isspace s)))"

text \<open>\<^verbatim>\<open>s.split(',')\<close>: the pieces between the commas; never the empty list.\<close>

fun split_comma :: "string \<Rightarrow> string list" where
  "split_comma [] = [[]]"
| "split_comma (c # cs) =
     (if c = CHR '','' then [] # split_comma cs
      else (case split_comma cs of
              [] \<Rightarrow> [[c]]
            | w # ws \<Rightarrow> (c # w) # ws))"

text \<open>\<^verbatim>\<open>s.replace('/', '_')\<close>.\<close>

definition replace_slash :: "string \<Rightarrow> string" where
  "replace_slash s = map (\<lambda>c. if c = CHR ''/'' then CHR ''_'' else c) s"

section \<open>The configuration entry\<close>

text \<open>\<^verbatim>\<open>config['hf_dataset_names']\<close> (line 11): a dictionary is looked up, any other
  value of the model cannot be subscripted by a string.\<close>

definition getitem :: "pyval \<Rightarrow> string \<Rightarrow> exn + pyval" where
  "getitem config k =
     (case config of
        Dct kvs \<Rightarrow> (case map_of kvs k of None \<Rightarrow> Inl KeyError | Some v \<Rightarrow> Inr v)
      | _ \<Rightarrow> Inl TypeError)"

text \<open>
  Lines 14 to 17: a string entry is split at the commas and each piece stripped; any
  other entry is iterated as it is (a list gives its elements, a dictionary its keys),
  and \<^verbatim>\<open>for dataset_name in dataset_names\<close> raises on a value that is not iterable.
\<close>

definition dataset_names :: "pyval \<Rightarrow> exn + pyval list" where
  "dataset_names entry =
     (case entry of
        Str s \<Rightarrow> Inr (map (\<lambda>name. Str (strip name)) (split_comma s))
      | Lst xs \<Rightarrow> Inr xs
      | Dct kvs \<Rightarrow> Inr (map (\<lambda>kv. Str (fst kv)) kvs)
      | _ \<Rightarrow> Inl TypeError)"

section \<open>Exporting one dataset\<close>

text \<open>Lines 25 to 28: the split \<open>train\<close>, else the first split; \<^verbatim>\<open>list(...)[0]\<close> raises
  on a dataset without splits.\<close>

definition choose_split :: "dataset \<Rightarrow> exn + item list" where
  "choose_split ds =
     (case map_of ds ''train'' of
        Some train_data \<Rightarrow> Inr train_data
      | None \<Rightarrow> (case map snd ds of [] \<Rightarrow> Inl IndexError | d # _ \<Rightarrow> Inr d))"

text \<open>\<^verbatim>\<open>isinstance(value, str)\<close>.\<close>

fun is_str :: "pyval \<Rightarrow> bool" where
  "is_str (Str s) = True"
| "is_str v = False"

text \<open>Lines 39 to 42: the inner loop stops at the first field whose value is a string.\<close>

fun first_str :: "item \<Rightarrow> pyval option" where
  "first_str [] = None"
| "first_str ((k, v) # kvs) = (if is_str v then Some v else first_str kvs)"

text \<open>Lines 33 to 42: what one record appends to \<open>texts\<close>, if anything. The fields
  \<open>text\<close> and \<open>content\<close> are taken whatever their value is.\<close>

definition select_text :: "item \<Rightarrow> pyval option" where
  "select_text it =
     (case map_of it ''text'' of
        Some v \<Rightarrow> Some v
      | None \<Rightarrow>
          (case map_of it ''content'' of
             Some v \<Rightarrow> Some v
           | None \<Rightarrow> first_str it))"

text \<open>Lines 31 to 42: the loop over the records, appending to \<open>texts\<close>.\<close>

definition extract_texts :: "item list \<Rightarrow> pyval list" where
  "extract_texts train_data =
     fold (\<lambda>it texts. case select_text it of Some v \<Rightarrow> texts @ [v] | None \<Rightarrow> texts)
       train_data []"

text \<open>Lines 45 and 46: \<^verbatim>\<open>replace\<close> is a method of strings only.\<close>

definition output_file :: "pyval \<Rightarrow> exn + string" where
  "output_file dataset_name =
     (case dataset_name of
        Str s \<Rightarrow> Inr (replace_slash s @ ''.txt'')
      | _ \<Rightarrow> Inl AttributeError)"

text \<open>
  Lines 50 and 51: the write loop on the open file, from the text written so far.
  \<^verbatim>\<open>text + '\n'\<close> raises a TypeError unless \<open>text\<close> is a string; what was written
  before stays in the file, which the \<^verbatim>\<open>with\<close> block closes.
\<close>

fun write_texts :: "pyval list \<Rightarrow> string \<Rightarrow> string \<times> exn option" where
  "write_texts [] buf = (buf, None)"
| "write_texts (Str s # texts) buf = write_texts texts (buf @ s @ [CHR 0x0A])"
| "write_texts (v # texts) buf = (buf, Some TypeError)"

text \<open>
  Lines 21 to 53, the body of the \<^verbatim>\<open>try\<close>: the state it leaves and the exception it
  raises, if any. Opening the file for writing creates it or empties it.
\<close>

definition try_body :: "world \<Rightarrow> pyval \<Rightarrow> state \<Rightarrow> state \<times> exn option" where
  "try_body w dataset_name st =
     (case load_dataset w dataset_name of
        Inl e \<Rightarrow> (st, Some e)
      | Inr ds \<Rightarrow>
          (case choose_split ds of
             Inl e \<Rightarrow> (st, Some e)
           | Inr train_data \<Rightarrow>
               (let texts = extract_texts train_data
                in case output_file dataset_name of
                     Inl e \<Rightarrow> (st, Some e)
                   | Inr file \<Rightarrow>
                       if \<not> can_open w file then (st, Some OSError)
                       else
                         (case write_texts texts [] of
                            (buf, Some e) \<Rightarrow> (st\<lparr>files := (files st)(file \<mapsto> buf)\<rparr>, Some e)
                          | (buf, None) \<Rightarrow>
                              (st\<lparr>files := (files st)(file \<mapsto> buf),
                                  console := console st @ [Saved (length texts) file]\<rparr>,
                               None)))))"

text \<open>Lines 18 to 56, one round of the loop: the announcement, the body, and the
  handler, which prints the error and lets the loop go on.\<close>

definition export_one :: "world \<Rightarrow> pyval \<Rightarrow> state \<Rightarrow> state" where
  "export_one w dataset_name st =
     (case try_body w dataset_name (st\<lparr>console := console st @ [Loading dataset_name]\<rparr>) of
        (st', None) \<Rightarrow> st'
      | (st', Some e) \<Rightarrow> st'\<lparr>console := console st' @ [ErrorLoading dataset_name e]\<rparr>)"

text \<open>Line 17: the loop over the identifiers.\<close>

definition export_names :: "world \<Rightarrow> pyval list \<Rightarrow> state \<Rightarrow> state" where
  "export_names w names st = fold (export_one w) names st"

text \<open>Lines 9 to 56: the whole run. An exception outside the \<^verbatim>\<open>try\<close> ends it.\<close>

definition download_and_save_datasets :: "world \<Rightarrow> state \<Rightarrow> state \<times> exn option" where
  "download_and_save_datasets w st =
     (case load_config w of
        Inl e \<Rightarrow> (st, Some e)
      | Inr config \<Rightarrow>
          (case getitem config ''hf_dataset_names'' of
             Inl e \<Rightarrow> (st, Some e)
           | Inr entry \<Rightarrow>
               (case dataset_names entry of
                  Inl e \<Rightarrow> (st, Some e)
                | Inr names \<Rightarrow> (export_names w names st, None))))"

section \<open>Notions of the specification\<close>

text \<open>\<^verbatim>\<open>','.join(pieces)\<close>, the inverse of splitting at the commas.\<close>

fun join_comma :: "string list \<Rightarrow> string" where
  "join_comma [] = []"
| "join_comma [p] = p"
| "join_comma (p # q # ps) = p @ CHR '','' # join_comma (q # ps)"

text \<open>
  The lines of a text file, each without its newline: a line ends at a newline
  character, and text after the last newline is a last line of its own.
\<close>

fun lines_from :: "string \<Rightarrow> string \<Rightarrow> string list" where
  "lines_from [] cur = (if cur = [] then [] else [cur])"
| "lines_from (c # cs) cur =
     (if c = CHR 0x0A then cur # lines_from cs [] else lines_from cs (cur @ [c]))"

definition file_lines :: "string \<Rightarrow> string list" where
  "file_lines s = lines_from s []"

text \<open>The working directory and the console before anything is written.\<close>

definition empty_state :: state where
  "empty_state = \<lparr>files = Map.empty, console = []\<rparr>"

section \<open>Facts about the loops\<close>

lemma fold_select_acc:
  "fold (\<lambda>it texts. case select_text it of Some v \<Rightarrow> texts @ [v] | None \<Rightarrow> texts) recs acc
     = acc @ List.map_filter select_text recs"
  by (induction recs arbitrary: acc) (auto simp: List.map_filter_simps split: option.splits)

lemma extract_texts_map_filter: "extract_texts recs = List.map_filter select_text recs"
  by (simp add: extract_texts_def fold_select_acc)

lemma first_str_find: "first_str it = map_option snd (find (\<lambda>kv. is_str (snd kv)) it)"
  by (induction it) auto

lemma first_str_is_str: "first_str it = Some v \<Longrightarrow> is_str v"
  by (induction it) (auto split: if_splits)

lemma write_texts_strs:
  "write_texts (map Str ss) buf = (buf @ concat (map (\<lambda>s. s @ [CHR 0x0A]) ss), None)"
  by (induction ss arbitrary: buf) auto

lemma write_texts_ok_iff: "snd (write_texts texts buf) = None \<longleftrightarrow> (\<forall>v \<in> set texts. is_str v)"
  by (induction texts buf rule: write_texts.induct) auto

lemma write_texts_stop:
  "\<not> is_str v \<Longrightarrow>
   write_texts (map Str ss @ v # rest) buf
     = (buf @ concat (map (\<lambda>s. s @ [CHR 0x0A]) ss), Some TypeError)"
proof (induction ss arbitrary: buf)
  case Nil
  then show ?case by (cases v) simp_all
next
  case (Cons s ss)
  then show ?case by simp
qed

lemma all_is_str_map: "(\<forall>v \<in> set texts. is_str v) \<Longrightarrow> \<exists>ss. texts = map Str ss"
proof (induction texts)
  case Nil
  then show ?case by simp
next
  case (Cons v texts)
  then obtain ss where "texts = map Str ss" by auto
  moreover obtain s where "v = Str s" using Cons.prems by (cases v) auto
  ultimately have "v # texts = map Str (s # ss)" by simp
  then show ?case by (rule exI)
qed

section \<open>Facts about the string operations\<close>

lemma split_comma_nonempty: "split_comma s \<noteq> []"
  by (induction s) (auto split: list.splits)

lemma split_comma_no_comma: "p \<in> set (split_comma s) \<Longrightarrow> CHR '','' \<notin> set p"
  by (induction s arbitrary: p) (auto split: list.splits if_splits)

lemma split_comma_length: "length (split_comma s) = Suc (length (filter (\<lambda>c. c = CHR '','') s))"
  by (induction s) (auto split: list.splits simp: split_comma_nonempty)

lemma join_split_comma: "join_comma (split_comma s) = s"
proof (induction s)
  case Nil
  show ?case by simp
next
  case (Cons c cs)
  show ?case
  proof (cases "split_comma cs")
    case Nil
    then show ?thesis using split_comma_nonempty by blast
  next
    case (Cons w ws)
    then show ?thesis using Cons.IH by (cases ws) auto
  qed
qed

lemma lines_from_line:
  "CHR 0x0A \<notin> set s \<Longrightarrow> lines_from (s @ CHR 0x0A # rest) cur = (cur @ s) # lines_from rest []"
  by (induction s arbitrary: cur) auto

lemma lines_from_concat:
  "(\<forall>s \<in> set ss. CHR 0x0A \<notin> set s) \<Longrightarrow>
   lines_from (concat (map (\<lambda>s. s @ [CHR 0x0A]) ss)) [] = ss"
  by (induction ss) (auto simp: lines_from_line)

lemma replace_slash_inj:
  "replace_slash a = replace_slash b \<Longrightarrow> CHR ''_'' \<notin> set a \<Longrightarrow> CHR ''_'' \<notin> set b \<Longrightarrow> a = b"
proof (induction a arbitrary: b)
  case Nil
  then show ?case by (simp add: replace_slash_def)
next
  case (Cons x xs)
  then obtain y ys where b: "b = y # ys" by (cases b) (auto simp: replace_slash_def)
  from Cons.prems b have "x = y" by (auto simp: replace_slash_def split: if_splits)
  moreover from Cons.prems b have "xs = ys"
    by (intro Cons.IH) (auto simp: replace_slash_def)
  ultimately show ?case using b by simp
qed

lemma strip_subset: "set (strip s) \<subseteq> set s"
  by (auto simp: strip_def dest!: set_dropWhileD)

lemma last_dropWhile_eq: "dropWhile P xs \<noteq> [] \<Longrightarrow> last (dropWhile P xs) = last xs"
  by (induction xs) (auto split: if_splits)

lemma strip_trimmed:
  "strip s = [] \<or> (\<not> py_isspace (hd (strip s)) \<and> \<not> py_isspace (last (strip s)))"
proof (cases "strip s = []")
  case True
  then show ?thesis by simp
next
  case False
  define a where "a = dropWhile py_isspace s"
  define b where "b = dropWhile py_isspace (rev a)"
  have s: "strip s = rev b" by (simp add: strip_def a_def b_def)
  with False have b: "b \<noteq> []" by simp
  then have ra: "rev a \<noteq> []" by (auto simp: b_def)
  then have a: "a \<noteq> []" by simp
  have "\<not> py_isspace (hd b)" using b unfolding b_def by (rule hd_dropWhile)
  then have l: "\<not> py_isspace (last (strip s))" using b by (simp add: s last_rev)
  have "last b = last (rev a)" using b unfolding b_def by (rule last_dropWhile_eq)
  then have "hd (strip s) = hd a" using b a by (simp add: s hd_rev last_rev)
  moreover have "\<not> py_isspace (hd a)" using a unfolding a_def by (rule hd_dropWhile)
  ultimately show ?thesis using l by simp
qed

section \<open>Facts about one export\<close>

lemma try_body_exn_indep: "snd (try_body w n st) = snd (try_body w n st')"
  by (simp add: try_body_def Let_def split: sum.splits prod.splits option.splits)

lemma try_body_files_frame:
  "files (fst (try_body w n st)) = files st ++ files (fst (try_body w n empty_state))"
  by (simp add: try_body_def empty_state_def Let_def split: sum.splits prod.splits option.splits)

lemma try_body_console_frame:
  "console (fst (try_body w n st)) = console st @ console (fst (try_body w n empty_state))"
  by (simp add: try_body_def empty_state_def Let_def split: sum.splits prod.splits option.splits)

lemma try_body_before_open:
  "load_dataset w n = Inl e
   \<or> (load_dataset w n = Inr ds \<and> choose_split ds = Inl e)
   \<or> output_file n = Inl e
   \<or> (output_file n = Inr file \<and> \<not> can_open w file)
   \<Longrightarrow> fst (try_body w n st) = st \<and> snd (try_body w n st) \<noteq> None"
  by (auto simp: try_body_def Let_def split: sum.splits prod.splits option.splits)

lemma try_body_write:
  "load_dataset w n = Inr ds \<Longrightarrow> choose_split ds = Inr recs \<Longrightarrow>
   output_file n = Inr file \<Longrightarrow> can_open w file \<Longrightarrow>
   try_body w n st =
     (case write_texts (extract_texts recs) [] of
        (buf, Some e) \<Rightarrow> (st\<lparr>files := (files st)(file \<mapsto> buf)\<rparr>, Some e)
      | (buf, None) \<Rightarrow>
          (st\<lparr>files := (files st)(file \<mapsto> buf),
              console := console st @ [Saved (length (extract_texts recs)) file]\<rparr>, None))"
  by (simp add: try_body_def Let_def)

lemma try_body_ok:
  "snd (try_body w n st) = None \<Longrightarrow>
   \<exists>ds recs file ss.
     load_dataset w n = Inr ds \<and> choose_split ds = Inr recs \<and> output_file n = Inr file \<and>
     can_open w file \<and> extract_texts recs = map Str ss \<and>
     try_body w n st =
       (st\<lparr>files := (files st)(file \<mapsto> concat (map (\<lambda>s. s @ [CHR 0x0A]) ss)),
           console := console st @ [Saved (length ss) file]\<rparr>, None)"
proof -
  assume ok: "snd (try_body w n st) = None"
  then obtain ds where ds: "load_dataset w n = Inr ds"
    by (cases "load_dataset w n") (auto simp: try_body_def)
  with ok obtain recs where recs: "choose_split ds = Inr recs"
    by (cases "choose_split ds") (auto simp: try_body_def)
  with ok ds obtain fl where fl: "output_file n = Inr fl"
    by (cases "output_file n") (auto simp: try_body_def Let_def)
  from ok ds recs fl have op: "can_open w fl"
    by (auto simp: try_body_def Let_def split: if_splits)
  note tb = try_body_write [OF ds recs fl op, of st]
  from ok tb have "snd (write_texts (extract_texts recs) []) = None"
    by (auto split: prod.splits option.splits)
  then have "\<forall>v \<in> set (extract_texts recs). is_str v" by (simp add: write_texts_ok_iff)
  then obtain ss where ss: "extract_texts recs = map Str ss" using all_is_str_map by blast
  have "try_body w n st =
       (st\<lparr>files := (files st)(fl \<mapsto> concat (map (\<lambda>s. s @ [CHR 0x0A]) ss)),
           console := console st @ [Saved (length ss) fl]\<rparr>, None)"
    using tb by (simp add: ss write_texts_strs)
  with ds recs fl op ss show ?thesis by blast
qed

lemma export_one_failed:
  "snd (try_body w n st') = Some e \<Longrightarrow>
   console (export_one w n st) = console st @ [Loading n, ErrorLoading n e]"
proof -
  assume f: "snd (try_body w n st') = Some e"
  let ?st1 = "st\<lparr>console := console st @ [Loading n]\<rparr>"
  have s: "snd (try_body w n ?st1) = Some e" using f try_body_exn_indep by metis
  have "console (fst (try_body w n ?st1)) = console ?st1"
    using s by (auto simp: try_body_def Let_def split: sum.splits prod.splits option.splits if_splits)
  then show ?thesis using s
    by (cases "try_body w n ?st1") (simp add: export_one_def)
qed

lemma export_one_files: "files (export_one w n st) = files (fst (try_body w n st))"
proof -
  let ?st1 = "st\<lparr>console := console st @ [Loading n]\<rparr>"
  have "files (export_one w n st) = files (fst (try_body w n ?st1))"
    by (cases "try_body w n ?st1") (auto simp: export_one_def split: option.splits)
  also have "\<dots> = files ?st1 ++ files (fst (try_body w n empty_state))"
    by (rule try_body_files_frame)
  also have "\<dots> = files (fst (try_body w n st))"
    using try_body_files_frame [of w n st] by simp
  finally show ?thesis .
qed

lemma export_one_files_frame:
  "files (export_one w n st) = files st ++ files (export_one w n empty_state)"
  using try_body_files_frame [of w n st] by (simp add: export_one_files)

lemma export_one_console_frame:
  "console (export_one w n st) = console st @ console (export_one w n empty_state)"
  by (simp add: export_one_def try_body_def empty_state_def Let_def
      split: sum.splits prod.splits option.splits)

section \<open>Facts about the loop over the identifiers\<close>

lemma export_names_Cons: "export_names w (n # rest) st = export_names w rest (export_one w n st)"
  by (simp add: export_names_def)

lemma export_names_files_frame:
  "files (export_names w names st) = files st ++ files (export_names w names empty_state)"
proof (induction names arbitrary: st)
  case Nil
  show ?case by (simp add: export_names_def empty_state_def)
next
  case (Cons n names)
  have "files (export_names w (n # names) st)
      = files (export_one w n st) ++ files (export_names w names empty_state)"
    using Cons.IH [of "export_one w n st"] by (simp add: export_names_Cons)
  also have "\<dots> = files st ++ (files (export_one w n empty_state) ++ files (export_names w names empty_state))"
    using export_one_files_frame [of w n st] by simp
  also have "files (export_one w n empty_state) ++ files (export_names w names empty_state)
      = files (export_names w (n # names) empty_state)"
    using Cons.IH [of "export_one w n empty_state"] by (simp add: export_names_Cons)
  finally show ?case .
qed

lemma export_names_console_frame:
  "console (export_names w names st)
     = console st @ concat (map (\<lambda>n. console (export_one w n empty_state)) names)"
proof (induction names arbitrary: st)
  case Nil
  show ?case by (simp add: export_names_def)
next
  case (Cons n names)
  show ?case
    using Cons.IH [of "export_one w n st"] export_one_console_frame [of w n st]
    by (simp add: export_names_Cons)
qed

section \<open>Facts used by the claims\<close>


lemma export_one_ok:
  "try_body w n (st\<lparr>console := console st @ [Loading n]\<rparr>) = (st', None) \<Longrightarrow>
   export_one w n st = st'"
  by (simp add: export_one_def)

lemma run_files_frame:
  "files (fst (download_and_save_datasets w st))
     = files st ++ files (fst (download_and_save_datasets w empty_state))"
  using export_names_files_frame [of w _ st]
  by (auto simp: download_and_save_datasets_def empty_state_def split: sum.splits)

lemma run_exn_indep:
  "snd (download_and_save_datasets w st) = snd (download_and_save_datasets w st')"
  by (simp add: download_and_save_datasets_def split: sum.splits)

lemma try_body_other_file:
  "output_file n = Inr fl \<Longrightarrow> f \<noteq> fl \<Longrightarrow> files (fst (try_body w n st)) f = files st f"
  by (simp add: try_body_def Let_def split: sum.splits prod.splits option.splits)

lemma split_comma_strip_no_comma:
  "p \<in> set (split_comma s) \<Longrightarrow> CHR '','' \<notin> set (strip p)"
  using split_comma_no_comma [of p s] strip_subset [of p] by blast

lemma length_map_filter:
  "length (List.map_filter f xs) = length (filter (\<lambda>x. f x \<noteq> None) xs)"
  by (simp add: List.map_filter_def)

lemma export_one_saved:
  "snd (try_body w n st) = None \<Longrightarrow>
   \<exists>ds recs fl ss.
     load_dataset w n = Inr ds \<and> choose_split ds = Inr recs \<and> output_file n = Inr fl \<and>
     can_open w fl \<and> extract_texts recs = map Str ss \<and>
     export_one w n st =
       st\<lparr>files := (files st)(fl \<mapsto> concat (map (\<lambda>s. s @ [CHR 0x0A]) ss)),
          console := console st @ [Loading n, Saved (length ss) fl]\<rparr>"
proof -
  assume ok: "snd (try_body w n st) = None"
  let ?st1 = "st\<lparr>console := console st @ [Loading n]\<rparr>"
  have "snd (try_body w n ?st1) = None"
    using ok try_body_exn_indep [of w n ?st1 st] by simp
  then obtain ds recs fl ss where
    f: "load_dataset w n = Inr ds" "choose_split ds = Inr recs" "output_file n = Inr fl"
      "can_open w fl" "extract_texts recs = map Str ss"
    and t: "try_body w n ?st1 =
       (?st1\<lparr>files := (files ?st1)(fl \<mapsto> concat (map (\<lambda>s. s @ [CHR 0x0A]) ss)),
           console := console ?st1 @ [Saved (length ss) fl]\<rparr>, None)"
    using try_body_ok [of w n ?st1] by blast
  have "export_one w n st =
       st\<lparr>files := (files st)(fl \<mapsto> concat (map (\<lambda>s. s @ [CHR 0x0A]) ss)),
          console := console st @ [Loading n, Saved (length ss) fl]\<rparr>"
    using export_one_ok [OF t] by simp
  with f show ?thesis by blast
qed

lemma export_one_raised:
  "try_body w n (st\<lparr>console := console st @ [Loading n]\<rparr>) = (st', Some e) \<Longrightarrow>
   export_one w n st = st'\<lparr>console := console st' @ [ErrorLoading n e]\<rparr>"
  by (simp add: export_one_def)

lemma export_one_before_open:
  assumes "load_dataset w n = Inl e
     \<or> (load_dataset w n = Inr ds \<and> choose_split ds = Inl e)
     \<or> output_file n = Inl e
     \<or> (output_file n = Inr fl \<and> \<not> can_open w fl)"
  shows "files (export_one w n st) = files st
     \<and> (\<exists>e'. console (export_one w n st) = console st @ [Loading n, ErrorLoading n e'])"
proof -
  have t: "fst (try_body w n st) = st \<and> snd (try_body w n st) \<noteq> None"
    using assms by (rule try_body_before_open)
  then obtain e' where e': "snd (try_body w n st) = Some e'" by auto
  have "files (export_one w n st) = files st"
    using t by (simp add: export_one_files)
  moreover have "console (export_one w n st) = console st @ [Loading n, ErrorLoading n e']"
    using e' by (rule export_one_failed)
  ultimately show ?thesis by blast
qed

lemma export_one_write_stops:
  assumes "load_dataset w n = Inr ds" and "choose_split ds = Inr recs"
    and "output_file n = Inr fl" and "can_open w fl"
    and "extract_texts recs = map Str ss @ v # rest" and "\<not> is_str v"
  shows "export_one w n st
     = st\<lparr>files := (files st)(fl \<mapsto> concat (map (\<lambda>s. s @ [CHR 0x0A]) ss)),
          console := console st @ [Loading n, ErrorLoading n TypeError]\<rparr>"
proof -
  let ?st1 = "st\<lparr>console := console st @ [Loading n]\<rparr>"
  have w: "write_texts (extract_texts recs) []
      = (concat (map (\<lambda>s. s @ [CHR 0x0A]) ss), Some TypeError)"
    using write_texts_stop [OF assms(6), of ss rest "[]"] by (simp add: assms(5))
  have "try_body w n ?st1
      = (?st1\<lparr>files := (files ?st1)(fl \<mapsto> concat (map (\<lambda>s. s @ [CHR 0x0A]) ss))\<rparr>,
         Some TypeError)"
    using try_body_write [OF assms(1) assms(2) assms(3) assms(4), of ?st1] by (simp add: w)
  from export_one_raised [OF this] show ?thesis by simp
qed

lemma export_one_two_lines:
  "\<exists>x. console (export_one w n st) = console st @ [Loading n, x]
       \<and> (case snd (try_body w n st) of None \<Rightarrow> (\<exists>k fl. x = Saved k fl)
           | Some e \<Rightarrow> x = ErrorLoading n e)"
proof (cases "snd (try_body w n st)")
  case None
  then show ?thesis using export_one_saved [of w n st] by auto
next
  case (Some e)
  then show ?thesis using export_one_failed [of w n st e st] by simp
qed

lemma run_fatal_iff:
  "snd (download_and_save_datasets w st) = Some e \<longleftrightarrow>
     load_config w = Inl e
     \<or> (\<exists>cfg. load_config w = Inr cfg
          \<and> (getitem cfg ''hf_dataset_names'' = Inl e
              \<or> (\<exists>entry. getitem cfg ''hf_dataset_names'' = Inr entry
                    \<and> dataset_names entry = Inl e)))"
  by (auto simp: download_and_save_datasets_def split: sum.splits)

lemma run_fatal_unchanged:
  "snd (download_and_save_datasets w st) \<noteq> None \<Longrightarrow> fst (download_and_save_datasets w st) = st"
  by (auto simp: download_and_save_datasets_def split: sum.splits)

section \<open>The claims\<close>

text \<open>
  Claim C1. The text value of a record is chosen by a fixed precedence: the value of the
  field \<open>text\<close> if the record has one, else the value of the field \<open>content\<close> if it
  has one, else the value of the first field, in the record's order, whose value is a
  string; a record with none of these appends nothing. The records
  \<open>[{text: a}, {content: b}, {other: c}, {n: 5}]\<close> give exactly \<open>a\<close>, \<open>b\<close>, \<open>c\<close>,
  in that order.
\<close>

theorem select_text_precedence:
  "(''text'' \<in> fst ` set it \<longrightarrow> select_text it = map_of it ''text'')
   \<and> (''text'' \<notin> fst ` set it \<and> ''content'' \<in> fst ` set it \<longrightarrow>
        select_text it = map_of it ''content'')
   \<and> (''text'' \<notin> fst ` set it \<and> ''content'' \<notin> fst ` set it \<longrightarrow>
        select_text it = map_option snd (find (\<lambda>kv. is_str (snd kv)) it))
   \<and> extract_texts recs = map the (filter (\<lambda>r. r \<noteq> None) (map select_text recs))
   \<and> (select_text it = None \<longrightarrow> extract_texts (before @ it # after) = extract_texts (before @ after))
   \<and> extract_texts
         [[(''text'', Str ''a'')], [(''content'', Str ''b'')], [(''other'', Str ''c'')],
          [(''n'', Num 5)]]
       = [Str ''a'', Str ''b'', Str ''c'']"
proof -
  have keys: "map_of it k = None \<longleftrightarrow> k \<notin> fst ` set it" for k
    by (simp add: map_of_eq_None_iff)
  have a: "''text'' \<in> fst ` set it \<longrightarrow> select_text it = map_of it ''text''"
    using keys [of "''text''"] by (auto simp: select_text_def split: option.splits)
  have b: "''text'' \<notin> fst ` set it \<and> ''content'' \<in> fst ` set it \<longrightarrow>
        select_text it = map_of it ''content''"
    using keys [of "''text''"] keys [of "''content''"]
    by (auto simp: select_text_def split: option.splits)
  have c: "''text'' \<notin> fst ` set it \<and> ''content'' \<notin> fst ` set it \<longrightarrow>
        select_text it = map_option snd (find (\<lambda>kv. is_str (snd kv)) it)"
    using keys [of "''text''"] keys [of "''content''"]
    by (auto simp: select_text_def first_str_find split: option.splits)
  have d: "extract_texts rs = map the (filter (\<lambda>r. r \<noteq> None) (map select_text rs))" for rs
    by (induction rs) (auto simp: extract_texts_map_filter List.map_filter_simps split: option.splits)
  have e: "select_text it = None \<longrightarrow>
        extract_texts (before @ it # after) = extract_texts (before @ after)"
    by (simp add: d)
  have f: "extract_texts
         [[(''text'', Str ''a'')], [(''content'', Str ''b'')], [(''other'', Str ''c'')],
          [(''n'', Num 5)]]
       = [Str ''a'', Str ''b'', Str ''c'']"
    by (simp add: extract_texts_def select_text_def)
  from a b c d e f show ?thesis by blast
qed

theorem select_text_precedence_witness:
  "select_text [(''id'', Num 7), (''text'', Str ''a''), (''content'', Str ''b'')] = Some (Str ''a'')
   \<and> select_text [(''title'', Str ''t''), (''content'', Str ''b'')] = Some (Str ''b'')
   \<and> select_text [(''n'', Num 5), (''other'', Str ''c''), (''more'', Str ''d'')] = Some (Str ''c'')
   \<and> select_text [(''n'', Num 5)] = None
   \<and> extract_texts ([[(''text'', Str ''a'')]] @ [(''n'', Num 5)] # [[(''other'', Str ''c'')]])
       = [Str ''a'', Str ''c'']"
proof -
  have 1: "select_text [(''id'', Num 7), (''text'', Str ''a''), (''content'', Str ''b'')] = Some (Str ''a'')"
    using select_text_precedence [of "[(''id'', Num 7), (''text'', Str ''a''), (''content'', Str ''b'')]"]
    by simp
  have 2: "select_text [(''title'', Str ''t''), (''content'', Str ''b'')] = Some (Str ''b'')"
    using select_text_precedence [of "[(''title'', Str ''t''), (''content'', Str ''b'')]"]
    by simp
  have 3: "select_text [(''n'', Num 5), (''other'', Str ''c''), (''more'', Str ''d'')] = Some (Str ''c'')"
    using select_text_precedence [of "[(''n'', Num 5), (''other'', Str ''c''), (''more'', Str ''d'')]"]
    by simp
  have 4: "select_text [(''n'', Num 5)] = None"
    using select_text_precedence [of "[(''n'', Num 5)]"] by simp
  have 5: "extract_texts ([[(''text'', Str ''a'')]] @ [(''n'', Num 5)] # [[(''other'', Str ''c'')]])
       = [Str ''a'', Str ''c'']"
    using select_text_precedence [of "[(''n'', Num 5)]" "[[(''text'', Str ''a'')], [(''other'', Str ''c'')]]" "[[(''text'', Str ''a'')]]" "[[(''other'', Str ''c'')]]"] 4
    by (simp add: select_text_def)
  from 1 2 3 4 5 show ?thesis by simp
qed



text \<open>
  Claim C3, as the code has it. A string entry is split at every \<open>,\<close> and each piece
  is trimmed: joining the pieces with \<open>,\<close> gives the entry back, there is one piece more
  than there are commas, and a trimmed piece holds no comma and neither starts nor ends
  with whitespace. A piece may be empty, and is kept: the code filters nothing out, so
  \<open>org/ds1, org/ds2,\<close> yields a third, empty identifier. An entry that is a list is
  used as it is. For \<open>org/ds1, org/ds2\<close> the run is exactly the export of \<open>org/ds1\<close>
  followed by the export of \<open>org/ds2\<close>, each of which fetches once.
\<close>

theorem dataset_names_split_trim:
  "dataset_names (Str s) = Inr (map (\<lambda>p. Str (strip p)) (split_comma s))
   \<and> join_comma (split_comma s) = s
   \<and> length (split_comma s) = Suc (length (filter (\<lambda>c. c = CHR '','') s))
   \<and> (\<forall>p \<in> set (split_comma s).
         CHR '','' \<notin> set (strip p)
         \<and> (strip p = [] \<or> (\<not> py_isspace (hd (strip p)) \<and> \<not> py_isspace (last (strip p)))))
   \<and> dataset_names (Lst xs) = Inr xs
   \<and> dataset_names (Str ''org/ds1, org/ds2'') = Inr [Str ''org/ds1'', Str ''org/ds2'']
   \<and> (load_config w = Inr (Dct [(''hf_dataset_names'', Str ''org/ds1, org/ds2'')]) \<longrightarrow>
        download_and_save_datasets w st
          = (export_one w (Str ''org/ds2'') (export_one w (Str ''org/ds1'') st), None))"
proof -
  have 1: "dataset_names (Str s) = Inr (map (\<lambda>p. Str (strip p)) (split_comma s))"
    by (simp add: dataset_names_def)
  have 4: "\<forall>p \<in> set (split_comma s).
         CHR '','' \<notin> set (strip p)
         \<and> (strip p = [] \<or> (\<not> py_isspace (hd (strip p)) \<and> \<not> py_isspace (last (strip p))))"
    using split_comma_strip_no_comma strip_trimmed by blast
  have 5: "dataset_names (Lst xs) = Inr xs"
    by (simp add: dataset_names_def)
  have 6: "dataset_names (Str ''org/ds1, org/ds2'') = Inr [Str ''org/ds1'', Str ''org/ds2'']"
    by (simp add: dataset_names_def strip_def py_isspace_def)
  have 7: "load_config w = Inr (Dct [(''hf_dataset_names'', Str ''org/ds1, org/ds2'')]) \<longrightarrow>
        download_and_save_datasets w st
          = (export_one w (Str ''org/ds2'') (export_one w (Str ''org/ds1'') st), None)"
    by (simp add: download_and_save_datasets_def getitem_def 6 export_names_def)
  from 1 join_split_comma [of s] split_comma_length [of s] 4 5 6 7 show ?thesis by blast
qed

theorem dataset_names_split_trim_witness:
  "dataset_names (Str '' a/b ,c,, d e '') = Inr [Str ''a/b'', Str ''c'', Str [], Str ''d e'']
   \<and> length (split_comma '' a/b ,c,, d e '') = 4
   \<and> console (fst (download_and_save_datasets
        \<lparr>load_config = Inr (Dct [(''hf_dataset_names'', Str ''org/ds1, org/ds2'')]),
         load_dataset = (\<lambda>n. Inl FetchError),
         can_open = (\<lambda>f. True)\<rparr> empty_state))
     = [Loading (Str ''org/ds1''), ErrorLoading (Str ''org/ds1'') FetchError,
        Loading (Str ''org/ds2''), ErrorLoading (Str ''org/ds2'') FetchError]"
proof -
  have 1: "dataset_names (Str '' a/b ,c,, d e '') = Inr [Str ''a/b'', Str ''c'', Str [], Str ''d e'']"
    using dataset_names_split_trim [of "'' a/b ,c,, d e ''"]
    by (simp add: strip_def py_isspace_def)
  have 2: "length (split_comma '' a/b ,c,, d e '') = 4"
    using dataset_names_split_trim [of "'' a/b ,c,, d e ''"] by simp
  have 3: "console (fst (download_and_save_datasets
        \<lparr>load_config = Inr (Dct [(''hf_dataset_names'', Str ''org/ds1, org/ds2'')]),
         load_dataset = (\<lambda>n. Inl FetchError),
         can_open = (\<lambda>f. True)\<rparr> empty_state))
     = [Loading (Str ''org/ds1''), ErrorLoading (Str ''org/ds1'') FetchError,
        Loading (Str ''org/ds2''), ErrorLoading (Str ''org/ds2'') FetchError]"
    using dataset_names_split_trim
      [of "[]" "[]" "\<lparr>load_config = Inr (Dct [(''hf_dataset_names'', Str ''org/ds1, org/ds2'')]),
         load_dataset = (\<lambda>n. Inl FetchError),
         can_open = (\<lambda>f. True)\<rparr>" empty_state]
    by (simp add: export_one_def try_body_def empty_state_def)
  from 1 2 3 show ?thesis by simp
qed

text \<open>
  The claim as stated fails: an entry with a trailing comma yields the empty
  identifier.
\<close>

theorem dataset_names_empty_piece_counterexample:
  "dataset_names (Str ''org/ds1, org/ds2,'') = Inr [Str ''org/ds1'', Str ''org/ds2'', Str []]
   \<and> Str [] \<in> set [Str ''org/ds1'', Str ''org/ds2'', Str []]"
  by (simp add: dataset_names_def strip_def py_isspace_def)

text \<open>
  Claim C4, as the code has it. Whatever is raised while one identifier is processed is
  caught by the handler of that round of the loop: the error line names the identifier
  and the exception, and the loop goes on with the next identifier, so the console
  holds, for every identifier in order, its announcement followed by its report. The
  run is ended by an exception exactly when the identifiers cannot be obtained: reading
  or parsing the configuration file fails, or the loaded configuration has no entry
  \<open>hf_dataset_names\<close> (or is no mapping), or the entry cannot be iterated. In each of
  these cases nothing has been printed or written. The last two are not failures to
  read or parse the file: a file whose entry is empty is read and parsed, and the run
  still ends with a TypeError.
\<close>

theorem failures_are_caught:
  "(snd (try_body w n st') = Some e \<longrightarrow>
      console (export_one w n st) = console st @ [Loading n, ErrorLoading n e])
   \<and> export_names w (n # rest) st = export_names w rest (export_one w n st)
   \<and> console (export_names w names st)
       = console st @ concat (map (\<lambda>m. console (export_one w m empty_state)) names)
   \<and> (\<exists>x. console (export_one w n empty_state) = [Loading n, x])
   \<and> (load_config w = Inr cfg \<and> getitem cfg ''hf_dataset_names'' = Inr entry
        \<and> dataset_names entry = Inr names \<longrightarrow>
      download_and_save_datasets w st = (export_names w names st, None))
   \<and> (snd (download_and_save_datasets w st) = Some e \<longleftrightarrow>
        load_config w = Inl e
        \<or> (\<exists>c. load_config w = Inr c
             \<and> (getitem c ''hf_dataset_names'' = Inl e
                 \<or> (\<exists>y. getitem c ''hf_dataset_names'' = Inr y \<and> dataset_names y = Inl e))))
   \<and> (snd (download_and_save_datasets w st) \<noteq> None \<longrightarrow>
        fst (download_and_save_datasets w st) = st)"
proof -
  have 1: "snd (try_body w n st') = Some e \<longrightarrow>
      console (export_one w n st) = console st @ [Loading n, ErrorLoading n e]"
    using export_one_failed [of w n st' e st] by blast
  have 2: "export_names w (n # rest) st = export_names w rest (export_one w n st)"
    by (rule export_names_Cons)
  have 3: "console (export_names w names st)
       = console st @ concat (map (\<lambda>m. console (export_one w m empty_state)) names)"
    by (rule export_names_console_frame)
  have 4: "\<exists>x. console (export_one w n empty_state) = [Loading n, x]"
    using export_one_two_lines [of w n empty_state] by (auto simp: empty_state_def)
  have 5: "load_config w = Inr cfg \<and> getitem cfg ''hf_dataset_names'' = Inr entry
        \<and> dataset_names entry = Inr names \<longrightarrow>
      download_and_save_datasets w st = (export_names w names st, None)"
    by (simp add: download_and_save_datasets_def)
  have 6: "snd (download_and_save_datasets w st) = Some e \<longleftrightarrow>
        load_config w = Inl e
        \<or> (\<exists>c. load_config w = Inr c
             \<and> (getitem c ''hf_dataset_names'' = Inl e
                 \<or> (\<exists>y. getitem c ''hf_dataset_names'' = Inr y \<and> dataset_names y = Inl e)))"
    by (rule run_fatal_iff)
  have 7: "snd (download_and_save_datasets w st) \<noteq> None \<longrightarrow>
        fst (download_and_save_datasets w st) = st"
    using run_fatal_unchanged [of w st] by blast
  from 1 2 3 4 5 6 7 show ?thesis by blast
qed

theorem failures_are_caught_witness:
  "download_and_save_datasets
     \<lparr>load_config = Inr (Dct [(''hf_dataset_names'', Str ''org/ds1, org/ds2'')]),
      load_dataset = (\<lambda>n. if n = Str ''org/ds1'' then Inl FetchError
                          else Inr [(''train'', [[(''text'', Str ''a'')]])]),
      can_open = (\<lambda>f. True)\<rparr> \<lparr>files = Map.empty, console = []\<rparr>
   = (\<lparr>files = [''org_ds2.txt'' \<mapsto> [CHR ''a'', CHR 0x0A]],
       console = [Loading (Str ''org/ds1''), ErrorLoading (Str ''org/ds1'') FetchError,
                  Loading (Str ''org/ds2''), Saved 1 ''org_ds2.txt'']\<rparr>, None)
   \<and> download_and_save_datasets
     \<lparr>load_config = Inl ConfigError,
      load_dataset = (\<lambda>n. Inr [(''train'', [[(''text'', Str ''a'')]])]),
      can_open = (\<lambda>f. True)\<rparr> \<lparr>files = Map.empty, console = []\<rparr>
   = (\<lparr>files = Map.empty, console = []\<rparr>, Some ConfigError)"
proof -
  let ?cfg = "Dct [(''hf_dataset_names'', Str ''org/ds1, org/ds2'')]"
  let ?w = "\<lparr>load_config = Inr ?cfg,
      load_dataset = (\<lambda>n. if n = Str ''org/ds1'' then Inl FetchError
                          else Inr [(''train'', [[(''text'', Str ''a'')]])]),
      can_open = (\<lambda>f. True)\<rparr>"
  let ?v = "\<lparr>load_config = Inl ConfigError,
      load_dataset = (\<lambda>n. Inr [(''train'', [[(''text'', Str ''a'')]])]),
      can_open = (\<lambda>f. True)\<rparr>"
  let ?st = "\<lparr>files = Map.empty, console = []\<rparr>"
  have n: "dataset_names (Str ''org/ds1, org/ds2'') = Inr [Str ''org/ds1'', Str ''org/ds2'']"
    by (simp add: dataset_names_def strip_def py_isspace_def)
  have "download_and_save_datasets ?w ?st
      = (export_names ?w [Str ''org/ds1'', Str ''org/ds2''] ?st, None)"
    using failures_are_caught
      [where w = ?w and st = ?st and names = "[Str ''org/ds1'', Str ''org/ds2'']"
         and cfg = ?cfg and entry = "Str ''org/ds1, org/ds2''"] n
    by (simp add: getitem_def)
  then have 1: "download_and_save_datasets ?w ?st
   = (\<lparr>files = [''org_ds2.txt'' \<mapsto> [CHR ''a'', CHR 0x0A]],
       console = [Loading (Str ''org/ds1''), ErrorLoading (Str ''org/ds1'') FetchError,
                  Loading (Str ''org/ds2''), Saved 1 ''org_ds2.txt'']\<rparr>, None)"
    by (simp add: export_names_def export_one_def try_body_def choose_split_def
        extract_texts_def select_text_def output_file_def replace_slash_def)
  have "snd (download_and_save_datasets ?v ?st) = Some ConfigError"
    using failures_are_caught [where w = ?v and e = ConfigError and st = ?st] by simp
  moreover from this have "fst (download_and_save_datasets ?v ?st) = ?st"
    using failures_are_caught [where w = ?v and e = ConfigError and st = ?st] by simp
  ultimately have 2: "download_and_save_datasets ?v ?st = (?st, Some ConfigError)"
    by (simp add: prod_eq_iff)
  from 1 2 show ?thesis by simp
qed

text \<open>
  The claim as stated fails: a configuration that is read and parsed, with an empty
  entry, ends the run.
\<close>

theorem fatal_after_config_read_counterexample:
  "download_and_save_datasets
     \<lparr>load_config = Inr (Dct [(''hf_dataset_names'', NoneV)]),
      load_dataset = (\<lambda>n. Inr [(''train'', [[(''text'', Str ''a'')]])]),
      can_open = (\<lambda>f. True)\<rparr> \<lparr>files = Map.empty, console = []\<rparr>
   = (\<lparr>files = Map.empty, console = []\<rparr>, Some TypeError)"
  by (simp add: download_and_save_datasets_def getitem_def dataset_names_def)

text \<open>
  Claim C5, as the code has it. In an export that succeeds, the file holds the selected
  values of the records, in the order of the split, each followed by a newline, the
  last one too; there are as many of them as records that selected a value, which is
  the count reported. A selected value that itself contains a newline spreads over
  several lines of the file, so the lines of the file are the selected values, one line
  per selecting record, only when no selected value contains a newline: the single
  record with the text \<open>a\<close>, newline, \<open>b\<close> gives a file of two lines, \<open>a\<close> and \<open>b\<close>.
\<close>

theorem output_lines_roundtrip:
  assumes "load_dataset w n = Inr ds"
    and "choose_split ds = Inr recs"
    and "snd (try_body w n st) = None"
  shows "\<exists>fl ss.
     output_file n = Inr fl
     \<and> map Str ss = List.map_filter select_text recs
     \<and> length ss = length (filter (\<lambda>r. select_text r \<noteq> None) recs)
     \<and> files (export_one w n st) fl = Some (concat (map (\<lambda>s. s @ [CHR 0x0A]) ss))
     \<and> console (export_one w n st) = console st @ [Loading n, Saved (length ss) fl]
     \<and> ((\<forall>s \<in> set ss. CHR 0x0A \<notin> set s) \<longrightarrow>
          file_lines (concat (map (\<lambda>s. s @ [CHR 0x0A]) ss)) = ss)"
proof -
  obtain ds' recs' fl ss where
    f: "load_dataset w n = Inr ds'" "choose_split ds' = Inr recs'" "output_file n = Inr fl"
      "extract_texts recs' = map Str ss"
    and e: "export_one w n st =
       st\<lparr>files := (files st)(fl \<mapsto> concat (map (\<lambda>s. s @ [CHR 0x0A]) ss)),
          console := console st @ [Loading n, Saved (length ss) fl]\<rparr>"
    using export_one_saved [OF assms(3)] by blast
  from f assms have x: "extract_texts recs = map Str ss" by simp
  then have m: "map Str ss = List.map_filter select_text recs"
    by (simp add: extract_texts_map_filter)
  have "length ss = length (map Str ss)" by simp
  also have "\<dots> = length (filter (\<lambda>r. select_text r \<noteq> None) recs)"
    unfolding m by (rule length_map_filter)
  finally have l: "length ss = length (filter (\<lambda>r. select_text r \<noteq> None) recs)" .
  have fi: "files (export_one w n st) fl = Some (concat (map (\<lambda>s. s @ [CHR 0x0A]) ss))"
    by (simp add: e)
  have co: "console (export_one w n st) = console st @ [Loading n, Saved (length ss) fl]"
    by (simp add: e)
  have li: "(\<forall>s \<in> set ss. CHR 0x0A \<notin> set s) \<longrightarrow>
          file_lines (concat (map (\<lambda>s. s @ [CHR 0x0A]) ss)) = ss"
    unfolding file_lines_def using lines_from_concat [of ss] by blast
  from f(3) m l fi co li show ?thesis by blast
qed

theorem output_lines_roundtrip_witness:
  "files (export_one
     \<lparr>load_config = Inl ConfigError,
      load_dataset = (\<lambda>n. Inr [(''train'',
         [[(''text'', Str ''a'')], [(''n'', Num 5)], [(''other'', Str ''c'')]])]),
      can_open = (\<lambda>f. True)\<rparr> (Str ''d'') empty_state) ''d.txt''
     = Some [CHR ''a'', CHR 0x0A, CHR ''c'', CHR 0x0A]
   \<and> file_lines [CHR ''a'', CHR 0x0A, CHR ''c'', CHR 0x0A] = [''a'', ''c'']"
proof -
  let ?recs = "[[(''text'', Str ''a'')], [(''n'', Num 5)], [(''other'', Str ''c'')]]"
  let ?w = "\<lparr>load_config = Inl ConfigError,
      load_dataset = (\<lambda>n. Inr [(''train'', ?recs)]),
      can_open = (\<lambda>f. True)\<rparr>"
  have a: "load_dataset ?w (Str ''d'') = Inr [(''train'', ?recs)]" by simp
  have b: "choose_split [(''train'', ?recs)] = Inr ?recs" by (simp add: choose_split_def)
  have c: "snd (try_body ?w (Str ''d'') empty_state) = None"
    by (simp add: try_body_def choose_split_def extract_texts_def select_text_def output_file_def)
  obtain fl ss where
    o: "output_file (Str ''d'') = Inr fl"
    and m: "map Str ss = List.map_filter select_text ?recs"
    and f: "files (export_one ?w (Str ''d'') empty_state) fl
              = Some (concat (map (\<lambda>s. s @ [CHR 0x0A]) ss))"
    and l: "(\<forall>s \<in> set ss. CHR 0x0A \<notin> set s) \<longrightarrow>
          file_lines (concat (map (\<lambda>s. s @ [CHR 0x0A]) ss)) = ss"
    using output_lines_roundtrip [OF a b c] by blast
  from o have fl: "fl = ''d.txt''" by (simp add: output_file_def replace_slash_def)
  from m have "map Str ss = [Str ''a'', Str ''c'']"
    by (simp add: List.map_filter_simps select_text_def)
  then have ss: "ss = [''a'', ''c'']" by auto
  from f l show ?thesis unfolding fl ss by simp
qed

text \<open>
  The claim as stated fails: a successful export of one record whose text holds a
  newline gives a file of two lines, neither of them the value of the record.
\<close>

theorem output_lines_newline_counterexample:
  "snd (try_body
     \<lparr>load_config = Inl ConfigError,
      load_dataset = (\<lambda>n. Inr [(''train'', [[(''text'', Str [CHR ''a'', CHR 0x0A, CHR ''b''])]])]),
      can_open = (\<lambda>f. True)\<rparr> (Str ''d'') empty_state) = None
   \<and> files (export_one
     \<lparr>load_config = Inl ConfigError,
      load_dataset = (\<lambda>n. Inr [(''train'', [[(''text'', Str [CHR ''a'', CHR 0x0A, CHR ''b''])]])]),
      can_open = (\<lambda>f. True)\<rparr> (Str ''d'') empty_state) ''d.txt''
     = Some [CHR ''a'', CHR 0x0A, CHR ''b'', CHR 0x0A]
   \<and> file_lines [CHR ''a'', CHR 0x0A, CHR ''b'', CHR 0x0A] = [''a'', ''b'']
   \<and> List.map_filter select_text [[(''text'', Str [CHR ''a'', CHR 0x0A, CHR ''b''])]]
     = [Str [CHR ''a'', CHR 0x0A, CHR ''b'']]"
  by (simp add: try_body_def export_one_def choose_split_def extract_texts_def select_text_def
      output_file_def replace_slash_def empty_state_def file_lines_def List.map_filter_simps)

text \<open>
  Claim C6, as the code has it. The claim that every selected value is a string fails:
  the fields \<open>text\<close> and \<open>content\<close> are taken by name, whatever their value is. What
  holds: a value found by the fallback (the record has neither \<open>text\<close> nor \<open>content\<close>)
  is a string, and in an export that succeeds every selected value is a string, since
  writing a value that is not a string raises.
\<close>

theorem select_text_fallback_is_str:
  "(first_str it = Some v \<longrightarrow> is_str v)
   \<and> (''text'' \<notin> fst ` set it \<and> ''content'' \<notin> fst ` set it \<and> select_text it = Some v
        \<longrightarrow> is_str v)
   \<and> (load_dataset w n = Inr ds \<and> choose_split ds = Inr recs \<and> snd (try_body w n st) = None
        \<longrightarrow> (\<forall>t \<in> set (extract_texts recs). is_str t))"
proof -
  have a: "first_str it = Some v \<longrightarrow> is_str v"
    using first_str_is_str by blast
  have b: "''text'' \<notin> fst ` set it \<and> ''content'' \<notin> fst ` set it \<and> select_text it = Some v
        \<longrightarrow> is_str v"
  proof
    assume h: "''text'' \<notin> fst ` set it \<and> ''content'' \<notin> fst ` set it \<and> select_text it = Some v"
    then have "map_of it ''text'' = None" "map_of it ''content'' = None"
      by (simp_all add: map_of_eq_None_iff)
    with h have "first_str it = Some v" by (simp add: select_text_def)
    then show "is_str v" by (rule first_str_is_str)
  qed
  have c: "load_dataset w n = Inr ds \<and> choose_split ds = Inr recs \<and> snd (try_body w n st) = None
        \<longrightarrow> (\<forall>t \<in> set (extract_texts recs). is_str t)"
  proof
    assume h: "load_dataset w n = Inr ds \<and> choose_split ds = Inr recs \<and> snd (try_body w n st) = None"
    then obtain ds' recs' ss where
      "load_dataset w n = Inr ds'" "choose_split ds' = Inr recs'" "extract_texts recs' = map Str ss"
      using try_body_ok [of w n st] by blast
    with h have "extract_texts recs = map Str ss" by simp
    then show "\<forall>t \<in> set (extract_texts recs). is_str t" by auto
  qed
  from a b c show ?thesis by blast
qed

theorem select_text_fallback_is_str_witness:
  "is_str (Str ''c'')
   \<and> list_all is_str (extract_texts [[(''n'', Num 5), (''other'', Str ''c'')]])"
proof -
  let ?it = "[(''n'', Num 5), (''other'', Str ''c'')]"
  let ?w = "\<lparr>load_config = Inl ConfigError,
             load_dataset = (\<lambda>n. Inr [(''train'', [[(''n'', Num 5), (''other'', Str ''c'')]])]),
             can_open = (\<lambda>f. True)\<rparr>"
  have s: "select_text ?it = Some (Str ''c'')" by (simp add: select_text_def)
  have 1: "is_str (Str ''c'')"
    using select_text_fallback_is_str [of ?it "Str ''c''"] s by simp
  have t: "snd (try_body ?w (Str ''d'') empty_state) = None"
    by (simp add: try_body_def choose_split_def extract_texts_def select_text_def output_file_def)
  have 2: "\<forall>t \<in> set (extract_texts [?it]). is_str t"
    using select_text_fallback_is_str
      [of ?it "Str ''c''" ?w "Str ''d''" "[(''train'', [?it])]" "[?it]" empty_state] t
    by (simp add: choose_split_def)
  from 1 2 show ?thesis by (simp add: list_all_iff)
qed

text \<open>
  The claim as stated fails: a \<open>text\<close> field that holds a number is
  selected, though the record has a string field.
\<close>

theorem select_text_nonstring_counterexample:
  "select_text [(''text'', Num 5), (''title'', Str ''t'')] = Some (Num 5) \<and> \<not> is_str (Num 5)"
  by (simp add: select_text_def)

text \<open>
  Claim C7, as the code has it. The name of the output file is the identifier with every
  \<open>/\<close> replaced by \<open>_\<close>, followed by \<open>.txt\<close>, so \<open>org/name\<close> gives \<open>org_name.txt\<close>, and
  exporting an identifier changes no file but this one. Distinct identifiers need not
  write distinct files: \<open>org/name\<close> and \<open>org_name\<close> write the same one. Two identifiers
  write the same file exactly when they agree after the replacement; identifiers
  without \<open>_\<close> that differ write different files.
\<close>

theorem output_file_name:
  "output_file (Str s) = Inr (replace_slash s @ ''.txt'')
   \<and> CHR ''/'' \<notin> set (replace_slash s)
   \<and> output_file (Str ''org/name'') = Inr ''org_name.txt''
   \<and> (output_file (Str a) = output_file (Str b) \<longleftrightarrow> replace_slash a = replace_slash b)
   \<and> (CHR ''_'' \<notin> set a \<and> CHR ''_'' \<notin> set b \<and> a \<noteq> b \<longrightarrow>
        output_file (Str a) \<noteq> output_file (Str b))
   \<and> (f \<noteq> replace_slash s @ ''.txt'' \<longrightarrow> files (export_one w (Str s) st) f = files st f)"
proof -
  have o: "output_file (Str x) = Inr (replace_slash x @ ''.txt'')" for x
    by (simp add: output_file_def)
  have 2: "CHR ''/'' \<notin> set (replace_slash s)"
    by (auto simp: replace_slash_def)
  have 3: "output_file (Str ''org/name'') = Inr ''org_name.txt''"
    by (simp add: output_file_def replace_slash_def)
  have 4: "output_file (Str a) = output_file (Str b) \<longleftrightarrow> replace_slash a = replace_slash b"
    by (simp add: o)
  have 5: "CHR ''_'' \<notin> set a \<and> CHR ''_'' \<notin> set b \<and> a \<noteq> b \<longrightarrow>
        output_file (Str a) \<noteq> output_file (Str b)"
    using replace_slash_inj [of a b] by (auto simp: o)
  have 6: "f \<noteq> replace_slash s @ ''.txt'' \<longrightarrow> files (export_one w (Str s) st) f = files st f"
    using try_body_other_file [OF o [of s], of f w st] by (simp add: export_one_files)
  from o [of s] 2 3 4 5 6 show ?thesis by blast
qed

theorem output_file_name_witness:
  "output_file (Str ''org/ds1'') \<noteq> output_file (Str ''org/ds2'')
   \<and> output_file (Str ''a/b/c'') = Inr ''a_b_c.txt''
   \<and> files (export_one
        \<lparr>load_config = Inl ConfigError,
         load_dataset = (\<lambda>n. Inr [(''train'', [[(''text'', Str ''v'')]])]),
         can_open = (\<lambda>f. True)\<rparr>
        (Str ''org/ds1'') \<lparr>files = [''org_ds2.txt'' \<mapsto> ''kept''], console = []\<rparr>) ''org_ds2.txt''
     = Some ''kept''"
proof -
  have "CHR ''_'' \<notin> set ''org/ds1'' \<and> CHR ''_'' \<notin> set ''org/ds2'' \<and> ''org/ds1'' \<noteq> ''org/ds2''"
    by simp
  then have 1: "output_file (Str ''org/ds1'') \<noteq> output_file (Str ''org/ds2'')"
    using output_file_name [of "''org/ds1''" "''org/ds1''" "''org/ds2''" "''org_ds1.txt''" _ empty_state]
    by blast
  have 2: "output_file (Str ''a/b/c'') = Inr ''a_b_c.txt''"
    using output_file_name [of "''a/b/c''"] by (simp add: replace_slash_def)
  have 3: "files (export_one
        \<lparr>load_config = Inl ConfigError,
         load_dataset = (\<lambda>n. Inr [(''train'', [[(''text'', Str ''v'')]])]),
         can_open = (\<lambda>f. True)\<rparr>
        (Str ''org/ds1'') \<lparr>files = [''org_ds2.txt'' \<mapsto> ''kept''], console = []\<rparr>) ''org_ds2.txt''
     = Some ''kept''"
    using output_file_name [of "''org/ds1''" _ _ "''org_ds2.txt''"
        "\<lparr>load_config = Inl ConfigError,
         load_dataset = (\<lambda>n. Inr [(''train'', [[(''text'', Str ''v'')]])]),
         can_open = (\<lambda>f. True)\<rparr>" "\<lparr>files = [''org_ds2.txt'' \<mapsto> ''kept''], console = []\<rparr>"]
    by (simp add: replace_slash_def)
  from 1 2 3 show ?thesis by simp
qed

text \<open>
  The claim as stated fails: two distinct identifiers with the same output file.
\<close>

theorem output_file_collision_counterexample:
  "output_file (Str ''org/name'') = output_file (Str ''org_name'')
   \<and> Str ''org/name'' \<noteq> Str ''org_name''"
  by (simp add: output_file_def replace_slash_def)

text \<open>
  Claim C8, as the code has it. A failure leaves no output file only when it happens
  before the file is opened: the fetch raises, the dataset has no split, the identifier
  is not a string, or the file cannot be opened. The file is opened before the values
  are written, and nothing removes it afterwards: when a selected value is not a
  string, the write loop raises at it, the error line is printed, and the file is left
  holding the lines written before that value. An export that succeeds leaves the
  complete file and reports the count.
\<close>

theorem failure_before_open_writes_nothing:
  "(load_dataset w n = Inl e
      \<or> (load_dataset w n = Inr ds \<and> choose_split ds = Inl e)
      \<or> output_file n = Inl e
      \<or> (output_file n = Inr fl \<and> \<not> can_open w fl)
    \<longrightarrow> files (export_one w n st) = files st
        \<and> (\<exists>e'. console (export_one w n st) = console st @ [Loading n, ErrorLoading n e']))
   \<and> (load_dataset w n = Inr ds \<and> choose_split ds = Inr recs \<and> output_file n = Inr fl
        \<and> can_open w fl \<and> extract_texts recs = map Str ss @ v # rest \<and> \<not> is_str v
    \<longrightarrow> export_one w n st
          = st\<lparr>files := (files st)(fl \<mapsto> concat (map (\<lambda>s. s @ [CHR 0x0A]) ss)),
               console := console st @ [Loading n, ErrorLoading n TypeError]\<rparr>)
   \<and> (snd (try_body w n st) = None
    \<longrightarrow> (\<exists>fl' ss'. export_one w n st
          = st\<lparr>files := (files st)(fl' \<mapsto> concat (map (\<lambda>s. s @ [CHR 0x0A]) ss')),
               console := console st @ [Loading n, Saved (length ss') fl']\<rparr>))"
proof -
  have a: "load_dataset w n = Inl e
      \<or> (load_dataset w n = Inr ds \<and> choose_split ds = Inl e)
      \<or> output_file n = Inl e
      \<or> (output_file n = Inr fl \<and> \<not> can_open w fl)
    \<longrightarrow> files (export_one w n st) = files st
        \<and> (\<exists>e'. console (export_one w n st) = console st @ [Loading n, ErrorLoading n e'])"
    using export_one_before_open [of w n e ds fl st] by blast
  have b: "load_dataset w n = Inr ds \<and> choose_split ds = Inr recs \<and> output_file n = Inr fl
        \<and> can_open w fl \<and> extract_texts recs = map Str ss @ v # rest \<and> \<not> is_str v
    \<longrightarrow> export_one w n st
          = st\<lparr>files := (files st)(fl \<mapsto> concat (map (\<lambda>s. s @ [CHR 0x0A]) ss)),
               console := console st @ [Loading n, ErrorLoading n TypeError]\<rparr>"
    using export_one_write_stops [of w n ds recs fl ss v rest st] by blast
  have c: "snd (try_body w n st) = None
    \<longrightarrow> (\<exists>fl' ss'. export_one w n st
          = st\<lparr>files := (files st)(fl' \<mapsto> concat (map (\<lambda>s. s @ [CHR 0x0A]) ss')),
               console := console st @ [Loading n, Saved (length ss') fl']\<rparr>)"
    using export_one_saved [of w n st] by blast
  from a b c show ?thesis by blast
qed

theorem failure_before_open_writes_nothing_witness:
  "files (export_one
     \<lparr>load_config = Inl ConfigError,
      load_dataset = (\<lambda>n. Inl FetchError),
      can_open = (\<lambda>f. True)\<rparr> (Str ''org/ds'') \<lparr>files = [''org_ds.txt'' \<mapsto> ''old''], console = []\<rparr>)
   = [''org_ds.txt'' \<mapsto> ''old'']
   \<and> files (export_one
     \<lparr>load_config = Inl ConfigError,
      load_dataset = (\<lambda>n. Inr []),
      can_open = (\<lambda>f. True)\<rparr> (Str ''org/ds'') \<lparr>files = [''org_ds.txt'' \<mapsto> ''old''], console = []\<rparr>)
   = [''org_ds.txt'' \<mapsto> ''old'']
   \<and> export_one
     \<lparr>load_config = Inl ConfigError,
      load_dataset = (\<lambda>n. Inr [(''train'', [[(''text'', Str ''a'')], [(''text'', NoneV)], [(''text'', Str ''c'')]])]),
      can_open = (\<lambda>f. True)\<rparr> (Str ''org/ds'') \<lparr>files = [''org_ds.txt'' \<mapsto> ''old''], console = []\<rparr>
   = \<lparr>files = [''org_ds.txt'' \<mapsto> [CHR ''a'', CHR 0x0A]],
      console = [Loading (Str ''org/ds''), ErrorLoading (Str ''org/ds'') TypeError]\<rparr>"
proof -
  let ?st = "\<lparr>files = [''org_ds.txt'' \<mapsto> ''old''], console = []\<rparr>"
  let ?w1 = "\<lparr>load_config = Inl ConfigError, load_dataset = (\<lambda>n. Inl FetchError),
      can_open = (\<lambda>f. True)\<rparr>"
  let ?w2 = "\<lparr>load_config = Inl ConfigError, load_dataset = (\<lambda>n. Inr []),
      can_open = (\<lambda>f. True)\<rparr>"
  let ?recs = "[[(''text'', Str ''a'')], [(''text'', NoneV)], [(''text'', Str ''c'')]]"
  let ?w3 = "\<lparr>load_config = Inl ConfigError, load_dataset = (\<lambda>n. Inr [(''train'', ?recs)]),
      can_open = (\<lambda>f. True)\<rparr>"
  have 1: "files (export_one ?w1 (Str ''org/ds'') ?st) = [''org_ds.txt'' \<mapsto> ''old'']"
    using failure_before_open_writes_nothing [of ?w1 "Str ''org/ds''" FetchError _ _ ?st]
    by simp
  have 2: "files (export_one ?w2 (Str ''org/ds'') ?st) = [''org_ds.txt'' \<mapsto> ''old'']"
    using failure_before_open_writes_nothing [of ?w2 "Str ''org/ds''" IndexError "[]" _ ?st]
    by (simp add: choose_split_def)
  have 3: "export_one ?w3 (Str ''org/ds'') ?st
   = \<lparr>files = [''org_ds.txt'' \<mapsto> [CHR ''a'', CHR 0x0A]],
      console = [Loading (Str ''org/ds''), ErrorLoading (Str ''org/ds'') TypeError]\<rparr>"
    using failure_before_open_writes_nothing
      [of ?w3 "Str ''org/ds''" FetchError "[(''train'', ?recs)]" "''org_ds.txt''" ?st ?recs
          "[''a'']" NoneV "[Str ''c'']"]
    by (simp add: choose_split_def output_file_def replace_slash_def extract_texts_def
        select_text_def)
  from 1 2 3 show ?thesis by simp
qed

text \<open>
  The claim as stated fails: the second value is not a string, the error path is
  taken, and the file exists with the first line.
\<close>

theorem partial_file_counterexample:
  "export_one
     \<lparr>load_config = Inl ConfigError,
      load_dataset = (\<lambda>n. Inr [(''train'', [[(''text'', Str ''a'')], [(''text'', Num 5)]])]),
      can_open = (\<lambda>f. True)\<rparr> (Str ''org/ds'') \<lparr>files = Map.empty, console = []\<rparr>
   = \<lparr>files = [''org_ds.txt'' \<mapsto> [CHR ''a'', CHR 0x0A]],
      console = [Loading (Str ''org/ds''), ErrorLoading (Str ''org/ds'') TypeError]\<rparr>"
  by (simp add: export_one_def try_body_def choose_split_def extract_texts_def select_text_def
      output_file_def replace_slash_def)

text \<open>
  Claim C9. Running the exporter again with the same configuration and the same remote
  data reproduces the same output files: the files a run leaves are the files it found
  overwritten by a set of files that depends on the world alone, so a second run from
  the state the first one left changes no file, and ends the same way.
\<close>

theorem rerun_same_files:
  "files (fst (download_and_save_datasets w (fst (download_and_save_datasets w st))))
     = files (fst (download_and_save_datasets w st))
   \<and> files (fst (download_and_save_datasets w st))
     = files st ++ files (fst (download_and_save_datasets w empty_state))
   \<and> snd (download_and_save_datasets w (fst (download_and_save_datasets w st)))
     = snd (download_and_save_datasets w st)"
proof -
  let ?m = "files (fst (download_and_save_datasets w empty_state))"
  have "files (fst (download_and_save_datasets w (fst (download_and_save_datasets w st))))
      = (files st ++ ?m) ++ ?m"
    using run_files_frame [of w "fst (download_and_save_datasets w st)"]
      run_files_frame [of w st] by simp
  also have "\<dots> = files st ++ ?m"
    by (rule ext) (simp add: map_add_def split: option.splits)
  finally have "files (fst (download_and_save_datasets w (fst (download_and_save_datasets w st))))
     = files (fst (download_and_save_datasets w st))"
    using run_files_frame [of w st] by simp
  then show ?thesis
    using run_files_frame [of w st] run_exn_indep [of w _ st] by simp
qed

theorem rerun_same_files_witness:
  "files (fst (download_and_save_datasets
      \<lparr>load_config = Inr (Dct [(''hf_dataset_names'', Str ''org/ds1, org/ds2'')]),
       load_dataset = (\<lambda>n. if n = Str ''org/ds1''
                          then Inr [(''train'', [[(''text'', Str ''a'')], [(''text'', Num 5)]])]
                          else Inl FetchError),
       can_open = (\<lambda>f. True)\<rparr>
      (fst (download_and_save_datasets
      \<lparr>load_config = Inr (Dct [(''hf_dataset_names'', Str ''org/ds1, org/ds2'')]),
       load_dataset = (\<lambda>n. if n = Str ''org/ds1''
                          then Inr [(''train'', [[(''text'', Str ''a'')], [(''text'', Num 5)]])]
                          else Inl FetchError),
       can_open = (\<lambda>f. True)\<rparr>
      \<lparr>files = [''org_ds1.txt'' \<mapsto> ''old'', ''x'' \<mapsto> ''y'']  , console = []\<rparr>))))
   = [''org_ds1.txt'' \<mapsto> [CHR ''a'', CHR 0x0A], ''x'' \<mapsto> ''y'']"
proof -
  let ?w = "\<lparr>load_config = Inr (Dct [(''hf_dataset_names'', Str ''org/ds1, org/ds2'')]),
       load_dataset = (\<lambda>n. if n = Str ''org/ds1''
                          then Inr [(''train'', [[(''text'', Str ''a'')], [(''text'', Num 5)]])]
                          else Inl FetchError),
       can_open = (\<lambda>f. True)\<rparr>"
  let ?st = "\<lparr>files = [''org_ds1.txt'' \<mapsto> ''old'', ''x'' \<mapsto> ''y''], console = []\<rparr>"
  have n: "dataset_names (Str ''org/ds1, org/ds2'') = Inr [Str ''org/ds1'', Str ''org/ds2'']"
    by (simp add: dataset_names_def strip_def py_isspace_def)
  have "files (fst (download_and_save_datasets ?w ?st))
      = [''org_ds1.txt'' \<mapsto> [CHR ''a'', CHR 0x0A], ''x'' \<mapsto> ''y'']"
    by (rule ext)
       (simp add: download_and_save_datasets_def getitem_def n export_names_def export_one_def
          try_body_def choose_split_def extract_texts_def select_text_def output_file_def
          replace_slash_def)
  then show ?thesis using rerun_same_files [of ?w ?st] by simp
qed



end
